theory Spec2Isabelle
  imports Main
begin

section \<open>JSON values and the JavaScript coercions the handlers rely on\<close>

text \<open>
  The handlers of \<^verbatim>\<open>src/server.ts\<close> work on untyped request bodies
  (\<^verbatim>\<open>ev: any\<close>), as produced by \<^verbatim>\<open>express.json\<close>.  A body is a JSON
  value; \<open>JUndefined\<close> is what reading an absent property yields.  Numbers are
  carried as integers: the handlers only test a number for zero (truthiness), ask for
  its \<^verbatim>\<open>typeof\<close>, and print it into the dedupe key.  An object is the list of
  its properties, looked up by key (a parsed body has no key twice).
\<close>

datatype json =
    JUndefined
  | JNull
  | JBool bool
  | JNum int
  | JStr string
  | JArr "json list"
  | JObj "(string \<times> json) list"

datatype js_error = TypeError | DbError

text \<open>JavaScript truthiness: \<^verbatim>\<open>undefined\<close>, \<^verbatim>\<open>null\<close>, \<^verbatim>\<open>false\<close>,
  \<^verbatim>\<open>0\<close> and \<^verbatim>\<open>""\<close> are falsy; every object and array is truthy, the
  empty ones included.\<close>

fun truthy :: "json \<Rightarrow> bool" where
  "truthy JUndefined = False"
| "truthy JNull = False"
| "truthy (JBool b) = b"
| "truthy (JNum n) = (n \<noteq> 0)"
| "truthy (JStr s) = (s \<noteq> [])"
| "truthy (JArr xs) = True"
| "truthy (JObj kvs) = True"

text \<open>\<^verbatim>\<open>a || b\<close>, and its frequent instance \<^verbatim>\<open>a || null\<close>.\<close>

definition js_or :: "json \<Rightarrow> json \<Rightarrow> json" where
  "js_or a b = (if truthy a then a else b)"

definition or_null :: "json \<Rightarrow> json" where
  "or_null a = js_or a JNull"

text \<open>Reading a property the way \<^verbatim>\<open>obj?.[k]\<close> does: an absent key, and any
  receiver that is not an object, yield \<^verbatim>\<open>undefined\<close> (the keys the handlers read
  are none of the built-in properties of strings, numbers or arrays).\<close>

fun field :: "json \<Rightarrow> string \<Rightarrow> json" where
  "field (JObj kvs) k = (case map_of kvs k of Some v \<Rightarrow> v | None \<Rightarrow> JUndefined)"
| "field v k = JUndefined"

fun is_number :: "json \<Rightarrow> bool" where
  "is_number (JNum n) = True"
| "is_number v = False"

fun is_string :: "json \<Rightarrow> bool" where
  "is_string (JStr s) = True"
| "is_string v = False"

text \<open>What a pg query parameter carries: the driver sends \<^verbatim>\<open>undefined\<close> as NULL.\<close>

definition sql_param :: "json \<Rightarrow> json" where
  "sql_param v = (if v = JUndefined then JNull else v)"

text \<open>SQL \<^verbatim>\<open>COALESCE(a, b)\<close>, with NULL as \<open>JNull\<close>.\<close>

definition coalesce :: "json \<Rightarrow> json \<Rightarrow> json" where
  "coalesce a b = (if a = JNull then b else a)"

subsection \<open>String conversion inside a template literal\<close>

definition digit_char :: "nat \<Rightarrow> char" where
  "digit_char d = char_of (48 + d)"

fun show_nat :: "nat \<Rightarrow> string" where
  "show_nat n = (if n < 10 then [digit_char n] else show_nat (n div 10) @ [digit_char (n mod 10)])"

definition show_int :: "int \<Rightarrow> string" where
  "show_int i = (if i < 0 then CHR ''-'' # show_nat (nat (- i)) else show_nat (nat i))"

fun join_comma :: "string list \<Rightarrow> string" where
  "join_comma [] = []"
| "join_comma [s] = s"
| "join_comma (s # t # ss) = s @ CHR '','' # join_comma (t # ss)"

text \<open>\<^verbatim>\<open>`${v}`\<close>: strings as they are, arrays by joining their elements with commas
  (\<^verbatim>\<open>null\<close> and \<^verbatim>\<open>undefined\<close> elements print as nothing), objects as
  \<^verbatim>\<open>[object Object]\<close>.  Integers print in decimal (below \<open>10^21\<close> in magnitude,
  where JavaScript switches to exponent notation).\<close>

fun to_string :: "json \<Rightarrow> string" where
  "to_string JUndefined = ''undefined''"
| "to_string JNull = ''null''"
| "to_string (JBool b) = (if b then ''true'' else ''false'')"
| "to_string (JNum n) = show_int n"
| "to_string (JStr s) = s"
| "to_string (JArr xs) =
     join_comma (map (\<lambda>x. if x = JNull \<or> x = JUndefined then [] else to_string x) xs)"
| "to_string (JObj kvs) = ''[object Object]''"

section \<open>Helpers of the ingestion pipeline\<close>

text \<open>\<^verbatim>\<open>pick(obj, keys)\<close>: a fresh object holding, in the order of \<open>keys\<close>, every
  key whose value in \<open>obj\<close> is not \<^verbatim>\<open>undefined\<close> (a key present with value
  \<^verbatim>\<open>null\<close> is kept).\<close>

definition pick :: "json \<Rightarrow> string list \<Rightarrow> json" where
  "pick obj keys = JObj (map (\<lambda>k. (k, field obj k)) (filter (\<lambda>k. field obj k \<noteq> JUndefined) keys))"

definition legacy_keys :: "string list" where
  "legacy_keys = [''utm_source'', ''utm_medium'', ''utm_campaign'', ''utm_content'',
     ''utm_term'', ''gclid'', ''fbclid'', ''wbraid'', ''gbraid'', ''msclkid'', ''ttclid'',
     ''yclid'']"

text \<open>\<^verbatim>\<open>validateEvent(ev)\<close>.  The first statement reads \<^verbatim>\<open>ev.event_id\<close> with a
  plain dot, so a \<^verbatim>\<open>null\<close> event throws before any code is collected.\<close>

definition push_if :: "bool \<Rightarrow> string \<Rightarrow> string list \<Rightarrow> string list" where
  "push_if c code xs = (if c then xs @ [code] else xs)"

definition validateEvent :: "json \<Rightarrow> js_error + (string list \<times> string list)" where
  "validateEvent ev =
     (if ev = JNull \<or> ev = JUndefined then Inl TypeError
      else
        let errs = push_if (\<not> truthy (field ev ''event_id'')) ''missing:event_id'' [];
            errs = push_if (\<not> truthy (field ev ''event_name'')) ''missing:event_name'' errs;
            errs = push_if (\<not> truthy (field ev ''client_id'')) ''missing:client_id'' errs;
            warns = push_if (\<not> truthy (field ev ''session_id'')) ''recommend:session_id'' [];
            errs =
              (if field ev ''event_name'' = JStr ''purchase'' then
                 push_if (\<not> is_string (field (field ev ''ecommerce'') ''currency''))
                   ''missing:ecommerce.currency''
                   (push_if (\<not> is_number (field (field ev ''ecommerce'') ''value''))
                      ''missing:ecommerce.value'' errs)
               else errs)
        in Inr (errs, warns))"

subsection \<open>The in-memory dedupe cache\<close>

text \<open>\<^verbatim>\<open>const dedupe = new Map<string, number>()\<close>: from key to the
  \<^verbatim>\<open>Date.now()\<close> reading (epoch milliseconds) at which the key was registered.\<close>

type_synonym dedupe_cache = "string \<rightharpoonup> int"

definition dedupe_key :: "json \<Rightarrow> string" where
  "dedupe_key ev = to_string (field ev ''event_name'') @ '':'' @ to_string (field ev ''event_id'')"

text \<open>The sweep \<^verbatim>\<open>for (const [k, ts] of dedupe.entries()) if (now - ts > 60000)
  dedupe.delete(k)\<close>: each entry is visited once and deleted on its own age.\<close>

definition evict :: "int \<Rightarrow> dedupe_cache \<Rightarrow> dedupe_cache" where
  "evict now d = (\<lambda>k. case d k of None \<Rightarrow> None
                       | Some ts \<Rightarrow> if now - ts > 60000 then None else Some ts)"

text \<open>\<^verbatim>\<open>shouldStore(ev)\<close>, with the clock reading and the cache passed in and the
  updated cache returned.\<close>

definition shouldStore :: "dedupe_cache \<Rightarrow> int \<Rightarrow> json \<Rightarrow> bool \<times> dedupe_cache" where
  "shouldStore d now ev =
     (let key = dedupe_key ev;
          d1 = evict now d
      in if d1 key \<noteq> None then (False, d1) else (True, d1(key \<mapsto> now)))"

section \<open>The relational store\<close>

text \<open>
  Modelled from the spec: the schema of the four tables (their SQL DDL) is not among
  the sources.  The column names are those of the \<^verbatim>\<open>INSERT\<close> statements; the
  conflict targets \<^verbatim>\<open>ON CONFLICT (client_id)\<close> and \<^verbatim>\<open>ON CONFLICT (session_id)\<close>
  make \<^verbatim>\<open>pixel_users\<close> and \<^verbatim>\<open>pixel_sessions\<close> stores keyed by these columns
  (a NULL key is rejected), \<^verbatim>\<open>pixel_events\<close> and \<^verbatim>\<open>pixel_metadata\<close> are
  insert-only, and \<^verbatim>\<open>pixel_events.id\<close> is assigned by a sequence.  A column an
  \<^verbatim>\<open>INSERT\<close> does not name is NULL.  A column holds the JSON value the statement
  was given (keys are compared as such values).  Of the forty columns of an event row
  the model keeps the ones below; the timestamp columns, which need the parsing of
  dates, are not among them.
\<close>

text \<open>A timestamp column holds either a value the client sent or a reading of the
  server clock (\<^verbatim>\<open>new Date()\<close>, epoch milliseconds).\<close>

datatype stamp = Given json | Clock int

record user_row =
  u_traits :: json
  u_last_seen :: stamp
  u_user_id :: json
  u_email_sha256 :: json
  u_phone_sha256 :: json

record session_row =
  s_client_id :: json
  s_started_at :: stamp
  s_first_page :: json
  s_last_page :: json

record event_row =
  e_id :: nat
  e_event_id :: json
  e_event_name :: json
  e_client_id :: json
  e_session_id :: json
  e_page_location :: json
  e_user_agent :: json
  e_campaign :: json
  e_ecommerce :: json
  e_raw_payload :: json

record meta_row =
  m_pixel_event_id :: nat
  m_ip_address :: json
  m_headers :: "(string \<times> string) list"
  m_geo_location :: json
  m_user_agent :: json
  m_request_id :: json

record database =
  users :: "json \<rightharpoonup> user_row"
  sessions :: "json \<rightharpoonup> session_row"
  events :: "event_row list"
  metadata :: "meta_row list"
  event_seq :: nat

text \<open>\<^verbatim>\<open>INSERT ... ON CONFLICT (key) DO UPDATE SET ...\<close>: the new row when the key
  is free, the merge of the stored row (\<^verbatim>\<open>public.t\<close>) with the proposed one
  (\<^verbatim>\<open>EXCLUDED\<close>) otherwise.\<close>

definition upserted :: "('k \<rightharpoonup> 'r) \<Rightarrow> 'k \<Rightarrow> 'r \<Rightarrow> ('r \<Rightarrow> 'r \<Rightarrow> 'r) \<Rightarrow> 'r" where
  "upserted t k new merge = (case t k of None \<Rightarrow> new | Some old \<Rightarrow> merge old new)"

definition upsert :: "('k \<rightharpoonup> 'r) \<Rightarrow> 'k \<Rightarrow> 'r \<Rightarrow> ('r \<Rightarrow> 'r \<Rightarrow> 'r) \<Rightarrow> ('k \<rightharpoonup> 'r)" where
  "upsert t k new merge = t(k \<mapsto> upserted t k new merge)"

text \<open>A statement run inside \<^verbatim>\<open>BEGIN ... ROLLBACK\<close> leaves no row behind: the
  tables return to the snapshot taken at \<^verbatim>\<open>BEGIN\<close>.  A sequence is not
  transactional, so the ids drawn meanwhile stay drawn.  The \<^verbatim>\<open>ROLLBACK\<close>
  statement itself is taken to go through, and requests are handled one after the
  other: the snapshot is the store as the request found it.\<close>

definition rollback :: "database \<Rightarrow> database \<Rightarrow> database" where
  "rollback snapshot cur = snapshot\<lparr>event_seq := event_seq cur\<rparr>"

definition insert_event :: "database \<Rightarrow> (nat \<Rightarrow> event_row) \<Rightarrow> nat \<times> database" where
  "insert_event d row_of =
     (let i = Suc (event_seq d)
      in (i, d\<lparr>events := events d @ [row_of i], event_seq := i\<rparr>))"

definition insert_metadata :: "database \<Rightarrow> meta_row \<Rightarrow> database" where
  "insert_metadata d m = d\<lparr>metadata := metadata d @ [m]\<rparr>"

section \<open>Requests, responses and the environment of a request\<close>

record request =
  req_body :: json
  req_headers :: "(string \<times> string) list"
  req_remote :: "string option"

record response =
  res_status :: nat
  res_body :: json

text \<open>The process state the handlers share: the dedupe cache and the store.\<close>

record state =
  dedupe :: dedupe_cache
  db :: database

text \<open>What a request does not decide itself: the clock readings it takes
  (\<^verbatim>\<open>Date.now()\<close> in \<^verbatim>\<open>shouldStore\<close>, \<^verbatim>\<open>new Date()\<close> for the user's
  last-seen time and for the session's start) and which of its statements the store
  fails.  A failing statement throws and has no effect.\<close>

datatype stmt = UpsertUser | UpsertSession | Connect | Begin | InsertEvent | InsertMetadata | Commit

record env =
  now_dedupe :: int
  now_user :: int
  now_session :: int
  faults :: "stmt \<Rightarrow> bool"

definition header :: "request \<Rightarrow> string \<Rightarrow> json" where
  "header req k = (case map_of (req_headers req) k of None \<Rightarrow> JUndefined | Some s \<Rightarrow> JStr s)"

definition is_space :: "char \<Rightarrow> bool" where
  "is_space c = (c \<in> set [CHR '' '', CHR 0x09, CHR 0x0A, CHR 0x0B, CHR 0x0C, CHR 0x0D, CHR 0xA0])"

definition trim :: "string \<Rightarrow> string" where
  "trim s = rev (dropWhile is_space (rev (dropWhile is_space s)))"

text \<open>\<^verbatim>\<open>req.headers["x-forwarded-for"]?.split(",")[0]?.trim() ||
  req.socket.remoteAddress || null\<close>.\<close>

definition client_ip :: "request \<Rightarrow> json" where
  "client_ip req =
     js_or
       (js_or
          (case map_of (req_headers req) ''x-forwarded-for'' of
             None \<Rightarrow> JUndefined
           | Some s \<Rightarrow> JStr (trim (takeWhile (\<lambda>c. c \<noteq> CHR '','') s)))
          (case req_remote req of None \<Rightarrow> JUndefined | Some a \<Rightarrow> JStr a))
       JNull"

definition meta_row_of :: "request \<Rightarrow> nat \<Rightarrow> meta_row" where
  "meta_row_of req i =
     \<lparr>m_pixel_event_id = i,
      m_ip_address = client_ip req,
      m_headers = req_headers req,
      m_geo_location = JNull,
      m_user_agent = or_null (header req ''user-agent''),
      m_request_id = or_null (header req ''x-request-id'')\<rparr>"

definition json_codes :: "string list \<Rightarrow> json" where
  "json_codes xs = JArr (map JStr xs)"

definition bad_request :: "string list \<Rightarrow> string list \<Rightarrow> response" where
  "bad_request errs warns =
     \<lparr>res_status = 400,
      res_body = JObj [(''error'', JStr ''invalid_event''), (''errs'', json_codes errs),
                       (''warns'', json_codes warns)]\<rparr>"

definition deduped_response :: response where
  "deduped_response =
     \<lparr>res_status = 200, res_body = JObj [(''ok'', JBool True), (''deduped'', JBool True)]\<rparr>"

definition stored_response :: "nat \<Rightarrow> string list \<Rightarrow> response" where
  "stored_response i warns =
     \<lparr>res_status = 200,
      res_body = JObj [(''ok'', JBool True), (''id'', JNum (int i)), (''warns'', json_codes warns)]\<rparr>"

definition ingested_response :: "nat \<Rightarrow> response" where
  "ingested_response n =
     \<lparr>res_status = 200, res_body = JObj [(''ok'', JBool True), (''ingested'', JNum (int n))]\<rparr>"

definition db_error :: response where
  "db_error = \<lparr>res_status = 500, res_body = JObj [(''error'', JStr ''db_error'')]\<rparr>"

definition server_error :: response where
  "server_error = \<lparr>res_status = 500, res_body = JObj [(''error'', JStr ''server_error'')]\<rparr>"

section \<open>POST /users and POST /sessions\<close>




definition sessions_row :: "json \<Rightarrow> int \<Rightarrow> session_row" where
  "sessions_row body now =
     \<lparr>s_client_id = sql_param (field body ''client_id''),
      s_started_at = (if truthy (field body ''started_at'') then Given (field body ''started_at'')
                      else Clock now),
      s_first_page = or_null (field body ''first_page''),
      s_last_page = or_null (field body ''last_page'')\<rparr>"

definition sessions_merge :: "session_row \<Rightarrow> session_row \<Rightarrow> session_row" where
  "sessions_merge old excluded =
     old\<lparr>s_client_id := s_client_id excluded,
         s_first_page := coalesce (s_first_page old) (s_first_page excluded),
         s_last_page := coalesce (s_last_page excluded) (s_last_page old)\<rparr>"

definition post_sessions :: "database \<Rightarrow> json \<Rightarrow> int \<Rightarrow> bool \<Rightarrow> js_error + (database \<times> session_row)" where
  "post_sessions d body0 now fault =
     (let body = js_or body0 (JObj []);
          key = sql_param (field body ''session_id'')
      in if fault \<or> key = JNull then Inl DbError
         else Inr (d\<lparr>sessions := upsert (sessions d) key (sessions_row body now) sessions_merge\<rparr>,
                   upserted (sessions d) key (sessions_row body now) sessions_merge))"

section \<open>POST /events\<close>

subsection \<open>The user and session upserts of the single-event path\<close>

definition event_user_row :: "json \<Rightarrow> int \<Rightarrow> user_row" where
  "event_user_row ev now =
     \<lparr>u_traits = js_or (field ev ''traits'') (JObj []),
      u_last_seen = Clock now,
      u_user_id = or_null (field (field ev ''identify'') ''user_id''),
      u_email_sha256 = or_null (field (field ev ''identify'') ''email_sha256''),
      u_phone_sha256 = or_null (field (field ev ''identify'') ''phone_sha256'')\<rparr>"

definition event_user_merge :: "user_row \<Rightarrow> user_row \<Rightarrow> user_row" where
  "event_user_merge old excluded =
     old\<lparr>u_last_seen := u_last_seen excluded,
         u_user_id := coalesce (u_user_id excluded) (u_user_id old),
         u_email_sha256 := coalesce (u_email_sha256 excluded) (u_email_sha256 old),
         u_phone_sha256 := coalesce (u_phone_sha256 excluded) (u_phone_sha256 old)\<rparr>"

definition upsert_user :: "int \<Rightarrow> json \<Rightarrow> database \<Rightarrow> database" where
  "upsert_user now ev d =
     d\<lparr>users := upsert (users d) (field ev ''client_id'') (event_user_row ev now)
                   event_user_merge\<rparr>"

text \<open>\<^verbatim>\<open>if (ev.client_id) { await pool.query(...) }\<close>: on the pool, so committed
  at once.\<close>

definition ensure_user :: "env \<Rightarrow> json \<Rightarrow> database \<Rightarrow> js_error + database" where
  "ensure_user e ev d =
     (if truthy (field ev ''client_id'') then
        if faults e UpsertUser then Inl DbError else Inr (upsert_user (now_user e) ev d)
      else Inr d)"

definition event_session_row :: "json \<Rightarrow> int \<Rightarrow> session_row" where
  "event_session_row ev now =
     \<lparr>s_client_id = sql_param (field ev ''client_id''),
      s_started_at = (if truthy (field ev ''started_at'') then Given (field ev ''started_at'')
                      else Clock now),
      s_first_page = or_null (field ev ''page_location''),
      s_last_page = or_null (field ev ''page_location'')\<rparr>"

definition event_session_merge :: "session_row \<Rightarrow> session_row \<Rightarrow> session_row" where
  "event_session_merge old excluded = old\<lparr>s_client_id := s_client_id excluded\<rparr>"

definition upsert_session :: "int \<Rightarrow> json \<Rightarrow> database \<Rightarrow> database" where
  "upsert_session now ev d =
     d\<lparr>sessions := upsert (sessions d) (field ev ''session_id'') (event_session_row ev now)
                      event_session_merge\<rparr>"

definition ensure_session :: "env \<Rightarrow> json \<Rightarrow> database \<Rightarrow> js_error + database" where
  "ensure_session e ev d =
     (if truthy (field ev ''session_id'') then
        if faults e UpsertSession then Inl DbError else Inr (upsert_session (now_session e) ev d)
      else Inr d)"

subsection \<open>The event row\<close>

text \<open>\<^verbatim>\<open>const campaign = ev.campaign || legacyCampaign || null\<close>.\<close>

definition campaign_of :: "json \<Rightarrow> json" where
  "campaign_of ev = js_or (js_or (field ev ''campaign'') (pick ev legacy_keys)) JNull"

text \<open>The parameter list of the insert; \<open>ua\<close> is the request's user-agent header in
  the single-event path and \<^verbatim>\<open>undefined\<close> in the bulk path, which has no such
  fallback.\<close>

definition event_row_of :: "json \<Rightarrow> json \<Rightarrow> nat \<Rightarrow> event_row" where
  "event_row_of ev ua i =
     \<lparr>e_id = i,
      e_event_id = sql_param (field ev ''event_id''),
      e_event_name = sql_param (field ev ''event_name''),
      e_client_id = sql_param (field ev ''client_id''),
      e_session_id = sql_param (field ev ''session_id''),
      e_page_location = or_null (field ev ''page_location''),
      e_user_agent = js_or (js_or (field ev ''user_agent'') ua) JNull,
      e_campaign = or_null (campaign_of ev),
      e_ecommerce = or_null (field ev ''ecommerce''),
      e_raw_payload = ev\<rparr>"

subsection \<open>The transaction and the handler\<close>

text \<open>The statements between \<^verbatim>\<open>BEGIN\<close> and \<^verbatim>\<open>COMMIT\<close>: the working state
  of the store, and the new event's id when every statement went through.\<close>

definition single_txn :: "env \<Rightarrow> request \<Rightarrow> json \<Rightarrow> database \<Rightarrow> database \<times> nat option" where
  "single_txn e req ev d =
     (if faults e Begin then (d, None)
      else if faults e InsertEvent then (d, None)
      else
        let (i, d1) = insert_event d (event_row_of ev (header req ''user-agent''))
        in if faults e InsertMetadata then (d1, None)
           else
             let d2 = insert_metadata d1 (meta_row_of req i)
             in if faults e Commit then (d2, None) else (d2, Some i))"

definition store_event :: "env \<Rightarrow> request \<Rightarrow> json \<Rightarrow> string list \<Rightarrow> database \<Rightarrow> response \<times> database" where
  "store_event e req ev warns d =
     (if faults e Connect then (server_error, d)
      else
        case single_txn e req ev d of
          (cur, None) \<Rightarrow> (db_error, rollback d cur)
        | (cur, Some i) \<Rightarrow> (stored_response i warns, cur))"

text \<open>\<^verbatim>\<open>const ev = req.body || {}\<close>.\<close>

definition event_of :: "request \<Rightarrow> json" where
  "event_of req = js_or (req_body req) (JObj [])"

definition post_events :: "env \<Rightarrow> state \<Rightarrow> request \<Rightarrow> response \<times> state" where
  "post_events e st req =
     (let ev = event_of req in
      case validateEvent ev of
        Inl err \<Rightarrow> (server_error, st)
      | Inr (errs, warns) \<Rightarrow>
          if errs \<noteq> [] then (bad_request errs warns, st)
          else
            let (fresh, cache) = shouldStore (dedupe st) (now_dedupe e) ev;
                st1 = st\<lparr>dedupe := cache\<rparr>
            in if \<not> fresh then (deduped_response, st1)
               else
                 (case ensure_user e ev (db st1) of
                    Inl err \<Rightarrow> (server_error, st1)
                  | Inr d1 \<Rightarrow>
                      (case ensure_session e ev d1 of
                         Inl err \<Rightarrow> (server_error, st1\<lparr>db := d1\<rparr>)
                       | Inr d2 \<Rightarrow>
                           (let (r, d3) = store_event e req ev warns d2
                            in (r, st1\<lparr>db := d3\<rparr>)))))"

section \<open>POST /events/bulk\<close>

definition bulk_user_row :: "int \<Rightarrow> user_row" where
  "bulk_user_row now =
     \<lparr>u_traits = JNull, u_last_seen = Clock now, u_user_id = JNull, u_email_sha256 = JNull,
      u_phone_sha256 = JNull\<rparr>"

definition bulk_user_merge :: "user_row \<Rightarrow> user_row \<Rightarrow> user_row" where
  "bulk_user_merge old excluded = old\<lparr>u_last_seen := u_last_seen excluded\<rparr>"

definition bulk_session_row :: "json \<Rightarrow> int \<Rightarrow> session_row" where
  "bulk_session_row ev now =
     \<lparr>s_client_id = sql_param (field ev ''client_id''), s_started_at = Clock now,
      s_first_page = JNull, s_last_page = JNull\<rparr>"

text \<open>The three statements of one accepted item, all on the transaction's client: the
  working state of the store, and whether all of them went through.\<close>

definition bulk_item :: "env \<Rightarrow> json \<Rightarrow> database \<Rightarrow> database \<times> bool" where
  "bulk_item e ev d =
     (if truthy (field ev ''client_id'') \<and> faults e UpsertUser then (d, False)
      else
        let d1 = (if truthy (field ev ''client_id'')
                  then d\<lparr>users := upsert (users d) (field ev ''client_id'')
                                     (bulk_user_row (now_user e)) bulk_user_merge\<rparr>
                  else d)
        in if truthy (field ev ''session_id'') \<and> faults e UpsertSession then (d1, False)
           else
             let d2 = (if truthy (field ev ''session_id'')
                       then d1\<lparr>sessions := upsert (sessions d1) (field ev ''session_id'')
                                              (bulk_session_row ev (now_session e))
                                              event_session_merge\<rparr>
                       else d1)
             in if faults e InsertEvent then (d2, False)
                else (snd (insert_event d2 (event_row_of ev JUndefined)), True))"

text \<open>The loop \<^verbatim>\<open>for (const ev of events)\<close>; \<open>ienv i\<close> is the environment of
  the item at index \<open>i\<close>.  The result is the cache, the working state of the store
  and the counter \<^verbatim>\<open>ok\<close>, or no counter when a statement or
  \<^verbatim>\<open>validateEvent\<close> threw.\<close>

fun bulk_loop :: "(nat \<Rightarrow> env) \<Rightarrow> nat \<Rightarrow> json list \<Rightarrow> dedupe_cache \<Rightarrow> database \<Rightarrow> nat
    \<Rightarrow> dedupe_cache \<times> database \<times> nat option" where
  "bulk_loop ienv i [] cache d ok = (cache, d, Some ok)"
| "bulk_loop ienv i (ev # evs) cache d ok =
     (case validateEvent ev of
        Inl err \<Rightarrow> (cache, d, None)
      | Inr (errs, warns) \<Rightarrow>
          if errs \<noteq> [] then bulk_loop ienv (Suc i) evs cache d ok
          else
            let (fresh, cache1) = shouldStore cache (now_dedupe (ienv i)) ev
            in if \<not> fresh then bulk_loop ienv (Suc i) evs cache1 d ok
               else
                 (case bulk_item (ienv i) ev d of
                    (d1, False) \<Rightarrow> (cache1, d1, None)
                  | (d1, True) \<Rightarrow> bulk_loop ienv (Suc i) evs cache1 d1 (Suc ok)))"

text \<open>\<^verbatim>\<open>const events = Array.isArray(req.body) ? req.body : []\<close>.\<close>

fun batch_of :: "json \<Rightarrow> json list" where
  "batch_of (JArr xs) = xs"
| "batch_of v = []"

text \<open>After the loop: the aggregate metadata row (event id 0) when anything was
  ingested, then \<^verbatim>\<open>COMMIT\<close>.\<close>

definition bulk_finish :: "env \<Rightarrow> request \<Rightarrow> database \<Rightarrow> nat \<Rightarrow> database \<times> bool" where
  "bulk_finish e req d ok =
     (if 0 < ok \<and> faults e InsertMetadata then (d, False)
      else
        let d1 = (if 0 < ok then insert_metadata d (meta_row_of req 0) else d)
        in if faults e Commit then (d1, False) else (d1, True))"

definition post_events_bulk :: "env \<Rightarrow> (nat \<Rightarrow> env) \<Rightarrow> state \<Rightarrow> request \<Rightarrow> response \<times> state" where
  "post_events_bulk e ienv st req =
     (let evs = batch_of (req_body req) in
      if evs = [] then (ingested_response 0, st)
      else if faults e Connect then (server_error, st)
      else if faults e Begin then (db_error, st)
      else
        case bulk_loop ienv 0 evs (dedupe st) (db st) 0 of
          (cache, cur, None) \<Rightarrow> (db_error, \<lparr>dedupe = cache, db = rollback (db st) cur\<rparr>)
        | (cache, cur, Some ok) \<Rightarrow>
            (case bulk_finish e req cur ok of
               (cur1, False) \<Rightarrow> (db_error, \<lparr>dedupe = cache, db = rollback (db st) cur1\<rparr>)
             | (cur1, True) \<Rightarrow> (ingested_response ok, \<lparr>dedupe = cache, db = cur1\<rparr>)))"

section \<open>Vocabulary of the statements below\<close>

text \<open>The store once both upserts of the single-event path have run.\<close>

definition after_upserts :: "env \<Rightarrow> json \<Rightarrow> database \<Rightarrow> database" where
  "after_upserts e ev d =
     (if truthy (field ev ''session_id'')
      then upsert_session (now_session e) ev (upsert_user (now_user e) ev d)
      else upsert_user (now_user e) ev d)"

text \<open>The store fails one of the upserts a valid event runs before its transaction.\<close>

definition upsert_fault :: "env \<Rightarrow> json \<Rightarrow> bool" where
  "upsert_fault e ev =
     (faults e UpsertUser \<or> truthy (field ev ''session_id'') \<and> faults e UpsertSession)"

text \<open>The store fails a statement of the transaction.\<close>

definition txn_fault :: "env \<Rightarrow> bool" where
  "txn_fault e =
     (faults e Begin \<or> faults e InsertEvent \<or> faults e InsertMetadata \<or> faults e Commit)"

text \<open>The store fails none of the statements of a request.\<close>

definition fault_free :: "env \<Rightarrow> bool" where
  "fault_free e =
     (\<not> (faults e UpsertUser \<or> faults e UpsertSession \<or> faults e Connect \<or> faults e Begin
         \<or> faults e InsertEvent \<or> faults e InsertMetadata \<or> faults e Commit))"

text \<open>What a coalesced identity column holds after an upsert, given the incoming request
  value and the stored one.\<close>

definition kept :: "json \<Rightarrow> json \<Rightarrow> json" where
  "kept incoming stored = (if truthy incoming then incoming else stored)"

section \<open>Sample data for the worked examples\<close>

definition ex_store :: database where
  "ex_store = \<lparr>users = Map.empty, sessions = Map.empty, events = [], metadata = [], event_seq = 0\<rparr>"

definition ex_state :: state where
  "ex_state = \<lparr>dedupe = Map.empty, db = ex_store\<rparr>"

definition no_faults :: "stmt \<Rightarrow> bool" where
  "no_faults s = False"

definition ex_env :: "int \<Rightarrow> env" where
  "ex_env t = \<lparr>now_dedupe = t, now_user = t + 1, now_session = t + 2, faults = no_faults\<rparr>"

definition ex_request :: "json \<Rightarrow> request" where
  "ex_request b =
     \<lparr>req_body = b,
      req_headers = [(''user-agent'', ''pixel-sdk''), (''x-forwarded-for'', ''10.0.0.7, 10.0.0.1'')],
      req_remote = Some ''127.0.0.1''\<rparr>"

definition ex_purchase :: json where
  "ex_purchase =
     JObj [(''event_id'', JStr ''p1''), (''event_name'', JStr ''purchase''),
           (''client_id'', JStr ''c1''), (''ecommerce'', JObj [(''currency'', JStr ''USD'')])]"

definition fault_at :: "stmt \<Rightarrow> stmt \<Rightarrow> bool" where
  "fault_at s x = (x = s)"

definition ex_env_fault :: "int \<Rightarrow> stmt \<Rightarrow> env" where
  "ex_env_fault t s = \<lparr>now_dedupe = t, now_user = t + 1, now_session = t + 2, faults = fault_at s\<rparr>"

definition ex_event_a :: json where
  "ex_event_a =
     JObj [(''event_id'', JStr ''e1''), (''event_name'', JStr ''page_view''),
           (''client_id'', JStr ''c1''), (''session_id'', JStr ''s1''),
           (''page_location'', JStr ''/a'')]"









definition ex_event_b :: json where
  "ex_event_b =
     JObj [(''event_id'', JStr ''e2''), (''event_name'', JStr ''page_view''),
           (''client_id'', JStr ''c1''), (''session_id'', JStr ''s1''),
           (''page_location'', JStr ''/b'')]"

definition ex_event_c :: json where
  "ex_event_c =
     JObj [(''event_id'', JStr ''e3''), (''event_name'', JStr ''click''),
           (''client_id'', JStr ''c1'')]"

definition ex_event_utm :: json where
  "ex_event_utm =
     JObj [(''event_id'', JStr ''e4''), (''event_name'', JStr ''page_view''),
           (''client_id'', JStr ''c1''), (''utm_source'', JStr ''ads''),
           (''utm_medium'', JStr ''cpc'')]"

definition ex_item_env :: "nat \<Rightarrow> env" where
  "ex_item_env i = ex_env (1000 + int i)"

section \<open>Properties\<close>

subsection \<open>Validation\<close>

lemma truthy_not_null: "truthy v \<Longrightarrow> v \<noteq> JNull \<and> v \<noteq> JUndefined"
  by (cases v) auto

lemma field_null [simp]: "field JNull k = JUndefined" "field JUndefined k = JUndefined"
  by simp_all

lemma event_of_not_null: "event_of req \<noteq> JNull \<and> event_of req \<noteq> JUndefined"
  by (cases "req_body req") (simp_all add: event_of_def js_or_def)

lemma validateEvent_total:
  "ev \<noteq> JNull \<Longrightarrow> ev \<noteq> JUndefined \<Longrightarrow> \<exists>errs warns. validateEvent ev = Inr (errs, warns)"
  by (simp add: validateEvent_def Let_def)

lemma validateEvent_event_of: "\<exists>errs warns. validateEvent (event_of req) = Inr (errs, warns)"
  using event_of_not_null validateEvent_total by blast


lemma validateEvent_no_errors:
  assumes "validateEvent ev = Inr ([], warns)"
  shows "truthy (field ev ''event_id'')" "truthy (field ev ''event_name'')"
    "truthy (field ev ''client_id'')"
  using assms by (auto simp: validateEvent_def Let_def push_if_def split: if_splits)

lemma validateEvent_purchase:
  assumes "field ev ''event_name'' = JStr ''purchase''"
  shows "validateEvent ev = Inr
     (push_if (\<not> is_string (field (field ev ''ecommerce'') ''currency''))
        ''missing:ecommerce.currency''
        (push_if (\<not> is_number (field (field ev ''ecommerce'') ''value''))
           ''missing:ecommerce.value''
           (push_if (\<not> truthy (field ev ''client_id'')) ''missing:client_id''
              (push_if (\<not> truthy (field ev ''event_id'')) ''missing:event_id'' []))),
      push_if (\<not> truthy (field ev ''session_id'')) ''recommend:session_id'' [])"
  using assms by (auto simp: validateEvent_def Let_def push_if_def)

subsection \<open>The three outcomes of the single-event handler\<close>

lemma post_events_invalid:
  assumes "validateEvent (event_of req) = Inr (errs, warns)" "errs \<noteq> []"
  shows "post_events e st req = (bad_request errs warns, st)"
  using assms by (simp add: post_events_def Let_def)

lemma post_events_duplicate:
  assumes "validateEvent (event_of req) = Inr ([], warns)"
    and "shouldStore (dedupe st) (now_dedupe e) (event_of req) = (False, c)"
  shows "post_events e st req = (deduped_response, st\<lparr>dedupe := c\<rparr>)"
  using assms by (simp add: post_events_def Let_def)

lemma post_events_fresh:
  assumes "validateEvent (event_of req) = Inr ([], warns)"
    and "shouldStore (dedupe st) (now_dedupe e) (event_of req) = (True, c)"
  shows "post_events e st req =
     (case ensure_user e (event_of req) (db st) of
        Inl err \<Rightarrow> (server_error, st\<lparr>dedupe := c\<rparr>)
      | Inr d1 \<Rightarrow>
          (case ensure_session e (event_of req) d1 of
             Inl err \<Rightarrow> (server_error, st\<lparr>dedupe := c, db := d1\<rparr>)
           | Inr d2 \<Rightarrow>
               (fst (store_event e req (event_of req) warns d2),
                st\<lparr>dedupe := c, db := snd (store_event e req (event_of req) warns d2)\<rparr>)))"
  using assms by (simp add: post_events_def Let_def split: sum.splits prod.splits)

lemma bulk_loop_skip_invalid:
  assumes "validateEvent ev = Inr (errs, warns)" "errs \<noteq> []"
  shows "bulk_loop ienv i (ev # evs) cache d ok = bulk_loop ienv (Suc i) evs cache d ok"
  using assms by simp

subsection \<open>Purchase events\<close>

text \<open>
  C8.  For an event named \<open>purchase\<close>, validation returns, and its hard errors hold
  \<open>missing:ecommerce.value\<close> exactly when \<^verbatim>\<open>ecommerce.value\<close> is not a number and
  \<open>missing:ecommerce.currency\<close> exactly when \<^verbatim>\<open>ecommerce.currency\<close> is not a
  string, each code at most once.  When there is any hard error the event is not
  stored: the single-event handler answers 400 and leaves the whole state as it was,
  and the bulk loop goes on as if the item were not in the batch.
\<close>

theorem C8_purchase_validation:
  assumes "field ev ''event_name'' = JStr ''purchase''"
  shows "\<exists>errs warns. validateEvent ev = Inr (errs, warns)
     \<and> (''missing:ecommerce.value'' \<in> set errs
          \<longleftrightarrow> \<not> is_number (field (field ev ''ecommerce'') ''value''))
     \<and> (''missing:ecommerce.currency'' \<in> set errs
          \<longleftrightarrow> \<not> is_string (field (field ev ''ecommerce'') ''currency''))
     \<and> count_list errs ''missing:ecommerce.value'' \<le> 1
     \<and> count_list errs ''missing:ecommerce.currency'' \<le> 1
     \<and> (errs \<noteq> [] \<longrightarrow>
          (\<forall>e st req. event_of req = ev \<longrightarrow> post_events e st req = (bad_request errs warns, st))
        \<and> (\<forall>ienv i evs cache d ok.
              bulk_loop ienv i (ev # evs) cache d ok = bulk_loop ienv (Suc i) evs cache d ok))"
proof -
  let ?errs = "push_if (\<not> is_string (field (field ev ''ecommerce'') ''currency''))
        ''missing:ecommerce.currency''
        (push_if (\<not> is_number (field (field ev ''ecommerce'') ''value''))
           ''missing:ecommerce.value''
           (push_if (\<not> truthy (field ev ''client_id'')) ''missing:client_id''
              (push_if (\<not> truthy (field ev ''event_id'')) ''missing:event_id'' [])))"
  obtain errs warns where v: "validateEvent ev = Inr (errs, warns)"
    using validateEvent_purchase [OF assms] by blast
  have errs: "errs = ?errs"
    using v validateEvent_purchase [OF assms] by simp
  have a: "''missing:ecommerce.value'' \<in> set errs
          \<longleftrightarrow> \<not> is_number (field (field ev ''ecommerce'') ''value'')"
    unfolding errs by (simp add: push_if_def)
  have b: "''missing:ecommerce.currency'' \<in> set errs
          \<longleftrightarrow> \<not> is_string (field (field ev ''ecommerce'') ''currency'')"
    unfolding errs by (simp add: push_if_def)
  have c: "count_list errs ''missing:ecommerce.value'' \<le> 1"
    unfolding errs by (simp add: push_if_def)
  have d: "count_list errs ''missing:ecommerce.currency'' \<le> 1"
    unfolding errs by (simp add: push_if_def)
  have s: "post_events e st req = (bad_request errs warns, st)"
    if "errs \<noteq> []" "event_of req = ev" for e st req
    using post_events_invalid [of req errs warns e st] that v by simp
  have l: "bulk_loop ienv i (ev # evs) cache d ok = bulk_loop ienv (Suc i) evs cache d ok"
    if "errs \<noteq> []" for ienv i evs cache d ok
    using bulk_loop_skip_invalid [OF v that] .
  show ?thesis
    using v a b c d s l by blast
qed

theorem C8_purchase_validation_witness:
  "field ex_purchase ''event_name'' = JStr ''purchase''
   \<and> validateEvent ex_purchase = Inr ([''missing:ecommerce.value''], [''recommend:session_id''])
   \<and> post_events (ex_env 1000) ex_state (ex_request ex_purchase)
       = (bad_request [''missing:ecommerce.value''] [''recommend:session_id''], ex_state)"
proof -
  have h: "field ex_purchase ''event_name'' = JStr ''purchase''"
    by (simp add: ex_purchase_def)
  have v: "validateEvent ex_purchase
      = Inr ([''missing:ecommerce.value''], [''recommend:session_id''])"
    by (simp add: ex_purchase_def validateEvent_def push_if_def Let_def)
  have ev: "event_of (ex_request ex_purchase) = ex_purchase"
    by (simp add: event_of_def ex_request_def ex_purchase_def js_or_def)
  from C8_purchase_validation [OF h] v
  have "\<forall>e st req. event_of req = ex_purchase \<longrightarrow>
      post_events e st req
        = (bad_request [''missing:ecommerce.value''] [''recommend:session_id''], st)"
    by simp
  with h v ev show ?thesis by blast
qed

subsection \<open>The write path of the single-event handler\<close>

lemma upsert_user_frame [simp]:
  "sessions (upsert_user now ev d) = sessions d" "events (upsert_user now ev d) = events d"
  "metadata (upsert_user now ev d) = metadata d" "event_seq (upsert_user now ev d) = event_seq d"
  by (simp_all add: upsert_user_def)

lemma upsert_session_frame [simp]:
  "users (upsert_session now ev d) = users d" "events (upsert_session now ev d) = events d"
  "metadata (upsert_session now ev d) = metadata d"
  "event_seq (upsert_session now ev d) = event_seq d"
  by (simp_all add: upsert_session_def)

lemma after_upserts_frame [simp]:
  "events (after_upserts e ev d) = events d" "metadata (after_upserts e ev d) = metadata d"
  "event_seq (after_upserts e ev d) = event_seq d"
  by (simp_all add: after_upserts_def)


lemma store_event_txn_fault:
  assumes "\<not> faults e Connect" "txn_fault e"
  shows "fst (store_event e req ev warns d) = db_error"
    and "users (snd (store_event e req ev warns d)) = users d"
    and "sessions (snd (store_event e req ev warns d)) = sessions d"
    and "events (snd (store_event e req ev warns d)) = events d"
    and "metadata (snd (store_event e req ev warns d)) = metadata d"
  using assms
  by (auto simp: store_event_def single_txn_def txn_fault_def rollback_def insert_event_def
      insert_metadata_def Let_def split: prod.splits)

lemma store_event_ok:
  assumes "\<not> faults e Connect" "\<not> txn_fault e"
  shows "store_event e req ev warns d =
     (stored_response (Suc (event_seq d)) warns,
      d\<lparr>events := events d @ [event_row_of ev (header req ''user-agent'') (Suc (event_seq d))],
        metadata := metadata d @ [meta_row_of req (Suc (event_seq d))],
        event_seq := Suc (event_seq d)\<rparr>)"
  using assms
  by (simp add: store_event_def single_txn_def txn_fault_def insert_event_def
      insert_metadata_def Let_def)

lemma post_events_reaches_store:
  assumes v: "validateEvent (event_of req) = Inr ([], warns)"
    and f: "shouldStore (dedupe st) (now_dedupe e) (event_of req) = (True, c)"
    and u: "\<not> upsert_fault e (event_of req)"
  shows "post_events e st req =
     (fst (store_event e req (event_of req) warns (after_upserts e (event_of req) (db st))),
      st\<lparr>dedupe := c,
         db := snd (store_event e req (event_of req) warns
                     (after_upserts e (event_of req) (db st)))\<rparr>)"
  using u validateEvent_no_errors(3) [OF v]
  by (simp add: post_events_fresh [OF v f] ensure_user_def ensure_session_def after_upserts_def
      upsert_fault_def)


lemma fresh_cache:
  "fst (shouldStore d now ev) \<Longrightarrow> \<exists>c. shouldStore d now ev = (True, c)"
  by (cases "shouldStore d now ev") simp


lemma ex_event_a_valid: "validateEvent (event_of (ex_request ex_event_a)) = Inr ([], [])"
  by (simp add: event_of_def ex_request_def ex_event_a_def js_or_def validateEvent_def
      push_if_def Let_def)

lemma ex_event_a_fresh:
  "fst (shouldStore (dedupe ex_state) t (event_of (ex_request ex_event_a)))"
  by (simp add: shouldStore_def evict_def ex_state_def Let_def)


subsection \<open>Deduplication\<close>

lemma fault_free_simps:
  "fault_free e \<Longrightarrow> \<not> upsert_fault e ev" "fault_free e \<Longrightarrow> \<not> faults e Connect"
  "fault_free e \<Longrightarrow> \<not> txn_fault e"
  by (simp_all add: fault_free_def upsert_fault_def txn_fault_def)

lemma shouldStore_eq:
  "shouldStore d now ev =
     (evict now d (dedupe_key ev) = None,
      if evict now d (dedupe_key ev) = None then (evict now d)(dedupe_key ev \<mapsto> now)
      else evict now d)"
  by (simp add: shouldStore_def Let_def)



lemma dedupe_after_valid:
  assumes v: "validateEvent (event_of req) = Inr ([], warns)"
  shows "dedupe (snd (post_events e st req))
       = snd (shouldStore (dedupe st) (now_dedupe e) (event_of req))"
proof (cases "shouldStore (dedupe st) (now_dedupe e) (event_of req)")
  case (Pair ok c)
  show ?thesis
  proof (cases ok)
    case True
    with Pair have f: "shouldStore (dedupe st) (now_dedupe e) (event_of req) = (True, c)"
      by simp
    show ?thesis
      by (simp add: post_events_fresh [OF v f] f split: sum.splits)
  next
    case False
    with Pair have f: "shouldStore (dedupe st) (now_dedupe e) (event_of req) = (False, c)"
      by simp
    show ?thesis
      by (simp add: post_events_duplicate [OF v f] f)
  qed
qed


lemma post_events_deduped:
  assumes v: "validateEvent (event_of req) = Inr ([], warns)"
    and f: "\<not> fst (shouldStore (dedupe st) (now_dedupe e) (event_of req))"
  shows "post_events e st req
       = (deduped_response, st\<lparr>dedupe := evict (now_dedupe e) (dedupe st)\<rparr>)"
proof -
  have "shouldStore (dedupe st) (now_dedupe e) (event_of req)
      = (False, evict (now_dedupe e) (dedupe st))"
    using f by (auto simp: shouldStore_eq)
  from post_events_duplicate [OF v this] show ?thesis .
qed

lemma post_events_stored:
  assumes v: "validateEvent (event_of req) = Inr ([], warns)"
    and f: "fst (shouldStore (dedupe st) (now_dedupe e) (event_of req))"
    and ok: "fault_free e"
  shows "fst (post_events e st req) = stored_response (Suc (event_seq (db st))) warns"
    and "events (db (snd (post_events e st req)))
       = events (db st)
         @ [event_row_of (event_of req) (header req ''user-agent'') (Suc (event_seq (db st)))]"
    and "metadata (db (snd (post_events e st req)))
       = metadata (db st) @ [meta_row_of req (Suc (event_seq (db st)))]"
    and "event_seq (db (snd (post_events e st req))) = Suc (event_seq (db st))"
proof -
  obtain c where c: "shouldStore (dedupe st) (now_dedupe e) (event_of req) = (True, c)"
    using fresh_cache [OF f] by blast
  note reach = post_events_reaches_store [OF v c fault_free_simps(1) [OF ok]]
  note st = store_event_ok [OF fault_free_simps(2) [OF ok] fault_free_simps(3) [OF ok]]
  show "fst (post_events e st req) = stored_response (Suc (event_seq (db st))) warns"
    by (simp add: reach st)
  show "events (db (snd (post_events e st req)))
       = events (db st)
         @ [event_row_of (event_of req) (header req ''user-agent'') (Suc (event_seq (db st)))]"
    by (simp add: reach st)
  show "metadata (db (snd (post_events e st req)))
       = metadata (db st) @ [meta_row_of req (Suc (event_seq (db st)))]"
    by (simp add: reach st)
  show "event_seq (db (snd (post_events e st req))) = Suc (event_seq (db st))"
    by (simp add: reach st)
qed




subsection \<open>A failed write keeps its fingerprint\<close>



lemma post_events_txn_fault:
  assumes v: "validateEvent (event_of req) = Inr ([], warns)"
    and f: "fst (shouldStore (dedupe st) (now_dedupe e) (event_of req))"
    and flt: "\<not> upsert_fault e (event_of req)" "\<not> faults e Connect" "txn_fault e"
  shows "fst (post_events e st req) = db_error"
    and "events (db (snd (post_events e st req))) = events (db st)"
    and "metadata (db (snd (post_events e st req))) = metadata (db st)"
    and "users (db (snd (post_events e st req)))
       = users (after_upserts e (event_of req) (db st))"
    and "sessions (db (snd (post_events e st req)))
       = sessions (after_upserts e (event_of req) (db st))"
proof -
  obtain c where c: "shouldStore (dedupe st) (now_dedupe e) (event_of req) = (True, c)"
    using fresh_cache [OF f] by blast
  note reach = post_events_reaches_store [OF v c flt(1)]
  note txn = store_event_txn_fault [OF flt(2,3)]
  show "fst (post_events e st req) = db_error"
    by (simp add: reach txn)
  show "events (db (snd (post_events e st req))) = events (db st)"
    by (simp add: reach txn)
  show "metadata (db (snd (post_events e st req))) = metadata (db st)"
    by (simp add: reach txn)
  show "users (db (snd (post_events e st req)))
       = users (after_upserts e (event_of req) (db st))"
    by (simp add: reach txn)
  show "sessions (db (snd (post_events e st req)))
       = sessions (after_upserts e (event_of req) (db st))"
    by (simp add: reach txn)
qed




lemma ex_env_simps [simp]:
  "now_dedupe (ex_env t) = t" "fault_free (ex_env t)"
  "now_dedupe (ex_env_fault t s) = t"
  by (simp_all add: ex_env_def ex_env_fault_def fault_free_def no_faults_def)



subsection \<open>The upserts are not part of the transaction\<close>

text \<open>
  C10.  In the single-event path the user and session upserts run on the pool before
  \<^verbatim>\<open>BEGIN\<close>.  So when a valid, fresh request reaches its transaction and the
  transaction fails, the answer is \<open>db_error\<close> and no event or metadata row is
  stored, yet the users table is the one the user upsert produced (the client's row
  exists, its last-seen time is this request's clock reading, its user id is the
  coalesced one) and, for an event with a session id, the sessions table is the one the
  session upsert produced (the session's row exists with this event's client id, and is
  the freshly inserted row when the session was new).
\<close>

theorem C10_upserts_outside_transaction:
  assumes v: "validateEvent (event_of req) = Inr ([], warns)"
    and f: "fst (shouldStore (dedupe st) (now_dedupe e) (event_of req))"
    and reached: "\<not> upsert_fault e (event_of req)" "\<not> faults e Connect"
    and failed: "txn_fault e"
  shows "fst (post_events e st req) = db_error
       \<and> events (db (snd (post_events e st req))) = events (db st)
       \<and> metadata (db (snd (post_events e st req))) = metadata (db st)
       \<and> users (db (snd (post_events e st req)))
           = users (upsert_user (now_user e) (event_of req) (db st))
       \<and> (\<exists>u. users (db (snd (post_events e st req))) (field (event_of req) ''client_id'') = Some u
              \<and> u_last_seen u = Clock (now_user e)
              \<and> u_user_id u
                  = (case users (db st) (field (event_of req) ''client_id'') of
                       None \<Rightarrow> or_null (field (field (event_of req) ''identify'') ''user_id'')
                     | Some old \<Rightarrow>
                         coalesce (or_null (field (field (event_of req) ''identify'') ''user_id''))
                           (u_user_id old)))
       \<and> (truthy (field (event_of req) ''session_id'') \<longrightarrow>
            sessions (db (snd (post_events e st req)))
              = sessions (upsert_session (now_session e) (event_of req) (db st))
          \<and> (\<exists>s. sessions (db (snd (post_events e st req))) (field (event_of req) ''session_id'')
                     = Some s
                 \<and> s_client_id s = field (event_of req) ''client_id'')
          \<and> (sessions (db st) (field (event_of req) ''session_id'') = None \<longrightarrow>
               sessions (db (snd (post_events e st req))) (field (event_of req) ''session_id'')
                 = Some (event_session_row (event_of req) (now_session e))))"
proof -
  let ?ev = "event_of req"
  note t = post_events_txn_fault [OF v f reached failed]
  have cid: "truthy (field ?ev ''client_id'')"
    using validateEvent_no_errors(3) [OF v] .
  have us: "users (after_upserts e ?ev (db st)) = users (upsert_user (now_user e) ?ev (db st))"
    by (simp add: after_upserts_def)
  have u: "\<exists>u. users (upsert_user (now_user e) ?ev (db st)) (field ?ev ''client_id'') = Some u
              \<and> u_last_seen u = Clock (now_user e)
              \<and> u_user_id u
                  = (case users (db st) (field ?ev ''client_id'') of
                       None \<Rightarrow> or_null (field (field ?ev ''identify'') ''user_id'')
                     | Some old \<Rightarrow>
                         coalesce (or_null (field (field ?ev ''identify'') ''user_id''))
                           (u_user_id old))"
    by (simp add: upsert_user_def upsert_def upserted_def event_user_row_def event_user_merge_def
        split: option.splits)
  have s: "sessions (after_upserts e ?ev (db st))
              = sessions (upsert_session (now_session e) ?ev (db st))
          \<and> (\<exists>s. sessions (after_upserts e ?ev (db st)) (field ?ev ''session_id'') = Some s
                 \<and> s_client_id s = field ?ev ''client_id'')
          \<and> (sessions (db st) (field ?ev ''session_id'') = None \<longrightarrow>
               sessions (after_upserts e ?ev (db st)) (field ?ev ''session_id'')
                 = Some (event_session_row ?ev (now_session e)))"
    if "truthy (field ?ev ''session_id'')"
    using that cid
    by (auto simp: after_upserts_def upsert_session_def upsert_user_def upsert_def upserted_def
        event_session_row_def event_session_merge_def sql_param_def split: option.splits)
  have U: "users (db (snd (post_events e st req)))
      = users (upsert_user (now_user e) ?ev (db st))"
    using t(4) us by simp
  show ?thesis
    unfolding U t(5) using t(1,2,3) u s by blast
qed

theorem C10_upserts_outside_transaction_witness:
  "validateEvent (event_of (ex_request ex_event_a)) = Inr ([], [])
   \<and> fst (shouldStore (dedupe ex_state) (now_dedupe (ex_env_fault 1000 Commit))
            (event_of (ex_request ex_event_a)))
   \<and> \<not> upsert_fault (ex_env_fault 1000 Commit) (event_of (ex_request ex_event_a))
   \<and> \<not> faults (ex_env_fault 1000 Commit) Connect
   \<and> txn_fault (ex_env_fault 1000 Commit)
   \<and> fst (post_events (ex_env_fault 1000 Commit) ex_state (ex_request ex_event_a)) = db_error
   \<and> events (db (snd (post_events (ex_env_fault 1000 Commit) ex_state (ex_request ex_event_a))))
       = []
   \<and> map_option u_last_seen
       (users (db (snd (post_events (ex_env_fault 1000 Commit) ex_state (ex_request ex_event_a))))
          (JStr ''c1'')) = Some (Clock 1001)
   \<and> map_option s_first_page
       (sessions (db (snd (post_events (ex_env_fault 1000 Commit) ex_state
                             (ex_request ex_event_a)))) (JStr ''s1'')) = Some (JStr ''/a'')"
proof -
  have f: "fst (shouldStore (dedupe ex_state) (now_dedupe (ex_env_fault 1000 Commit))
             (event_of (ex_request ex_event_a)))"
    by (simp add: ex_event_a_fresh)
  have flt: "\<not> upsert_fault (ex_env_fault 1000 Commit) (event_of (ex_request ex_event_a))"
    "\<not> faults (ex_env_fault 1000 Commit) Connect"
    "txn_fault (ex_env_fault 1000 Commit)"
    by (simp_all add: upsert_fault_def txn_fault_def ex_env_fault_def fault_at_def)
  have p: "event_of (ex_request ex_event_a) = ex_event_a"
    by (simp add: event_of_def ex_request_def ex_event_a_def js_or_def)
  have q: "field ex_event_a ''client_id'' = JStr ''c1''"
    "field ex_event_a ''session_id'' = JStr ''s1''"
    "field ex_event_a ''page_location'' = JStr ''/a''"
    by (simp_all add: ex_event_a_def)
  have z: "events (db ex_state) = []" "sessions (db ex_state) (JStr ''s1'') = None"
    by (simp_all add: ex_state_def ex_store_def)
  note w = C10_upserts_outside_transaction [OF ex_event_a_valid f flt]
  have a: "fst (post_events (ex_env_fault 1000 Commit) ex_state (ex_request ex_event_a)) = db_error"
    using w by simp
  have b: "events (db (snd (post_events (ex_env_fault 1000 Commit) ex_state
             (ex_request ex_event_a)))) = []"
    using w [THEN conjunct2, THEN conjunct1] z by simp
  have c: "map_option u_last_seen
       (users (db (snd (post_events (ex_env_fault 1000 Commit) ex_state (ex_request ex_event_a))))
          (JStr ''c1'')) = Some (Clock 1001)"
    using w [THEN conjunct2, THEN conjunct2, THEN conjunct2, THEN conjunct2, THEN conjunct1]
    by (auto simp: p q ex_env_fault_def)
  have d: "map_option s_first_page
       (sessions (db (snd (post_events (ex_env_fault 1000 Commit) ex_state
                             (ex_request ex_event_a)))) (JStr ''s1'')) = Some (JStr ''/a'')"
  proof -
    have t: "truthy (JStr ''s1'')" by simp
    from w [THEN conjunct2, THEN conjunct2, THEN conjunct2, THEN conjunct2, THEN conjunct2,
        unfolded p q] t z(2)
    have "sessions (db (snd (post_events (ex_env_fault 1000 Commit) ex_state
                             (ex_request ex_event_a)))) (JStr ''s1'')
        = Some (event_session_row ex_event_a (now_session (ex_env_fault 1000 Commit)))"
      by blast
    then show ?thesis
      by (simp add: event_session_row_def q or_null_def js_or_def)
  qed
  show ?thesis
    using ex_event_a_valid f flt a b c d by simp
qed

subsection \<open>Required fields\<close>



subsection \<open>Identity columns of a client\<close>

lemma coalesce_or_null: "coalesce (or_null a) b = kept a b"
  by (cases a) (simp_all add: coalesce_def or_null_def js_or_def kept_def)


lemma store_event_identity_tables:
  "users (snd (store_event e req ev warns d)) = users d"
  "sessions (snd (store_event e req ev warns d)) = sessions d"
  by (simp_all add: store_event_def single_txn_def rollback_def insert_event_def
      insert_metadata_def Let_def split: prod.splits)







subsection \<open>Sessions\<close>

lemma post_events_sessions:
  assumes v: "validateEvent (event_of req) = Inr ([], warns)"
    and f: "fst (shouldStore (dedupe st) (now_dedupe e) (event_of req))"
    and u: "\<not> upsert_fault e (event_of req)"
  shows "sessions (db (snd (post_events e st req)))
       = sessions (after_upserts e (event_of req) (db st))"
proof -
  obtain c where c: "shouldStore (dedupe st) (now_dedupe e) (event_of req) = (True, c)"
    using fresh_cache [OF f] by blast
  show ?thesis
    by (simp add: post_events_reaches_store [OF v c u] store_event_identity_tables)
qed

lemma upsert_session_existing:
  assumes "sessions d (field ev ''session_id'') = Some old"
  shows "sessions (upsert_session now ev d) (field ev ''session_id'')
       = Some (old\<lparr>s_client_id := sql_param (field ev ''client_id'')\<rparr>)"
  using assms
  by (simp add: upsert_session_def upsert_def upserted_def event_session_row_def
      event_session_merge_def)

lemma post_sessions_existing:
  assumes "sessions d (field b ''session_id'') = Some old"
    and "field b ''session_id'' \<noteq> JNull \<and> field b ''session_id'' \<noteq> JUndefined"
    and "b = js_or body (JObj [])"
  shows "\<exists>d1 r. post_sessions d body now False = Inr (d1, r)
       \<and> sessions d1 (field b ''session_id'') = Some r
       \<and> r = old\<lparr>s_client_id := sql_param (field b ''client_id''),
                  s_first_page := coalesce (s_first_page old) (or_null (field b ''first_page'')),
                  s_last_page := kept (field b ''last_page'') (s_last_page old)\<rparr>"
proof -
  have k: "sql_param (field b ''session_id'') = field b ''session_id''"
    using assms(2) by (simp add: sql_param_def)
  show ?thesis
    using assms k
    by (simp add: post_sessions_def Let_def upsert_def upserted_def sessions_row_def
        sessions_merge_def coalesce_or_null)
qed

text \<open>The first page of a session is sticky on every path: the event-driven upserts
  do not touch it, and POST /sessions keeps a stored value that is not NULL.\<close>

lemma first_page_sticky:
  "s_first_page (event_session_merge old excluded) = s_first_page old"
  "s_first_page old \<noteq> JNull \<Longrightarrow> s_first_page (sessions_merge old excluded) = s_first_page old"
  by (simp_all add: event_session_merge_def sessions_merge_def coalesce_def)

text \<open>The last page follows the request only in POST /sessions; the merge of the
  event-driven upserts (single and bulk) leaves it as stored.\<close>

lemma last_page_merge:
  "s_last_page (event_session_merge old excluded) = s_last_page old"
  "s_last_page (sessions_merge old excluded) = coalesce (s_last_page excluded) (s_last_page old)"
  by (simp_all add: event_session_merge_def sessions_merge_def)

lemma ex_event_b_valid: "validateEvent (event_of (ex_request ex_event_b)) = Inr ([], [])"
  by (simp add: event_of_def ex_request_def ex_event_b_def js_or_def validateEvent_def
      push_if_def Let_def)

text \<open>
  C5.  The first page of a session is sticky on every path (\<open>first_page_sticky\<close>).
  The last page is not refreshed by a later event: the upsert of the single-event path
  updates only \<open>client_id\<close> on conflict.  Here a first event with page \<open>/a\<close>
  creates session \<open>s1\<close>, and a second, stored event of that session with page
  \<open>/b\<close> leaves the first page at \<open>/a\<close> and the last page at \<open>/a\<close> too.
\<close>

theorem C5_event_leaves_last_page_stale:
  "fst (post_events (ex_env 5000) (snd (post_events (ex_env 1000) ex_state (ex_request ex_event_a)))
         (ex_request ex_event_b)) = stored_response 2 []
   \<and> map_option s_first_page
       (sessions (db (snd (post_events (ex_env 1000) ex_state (ex_request ex_event_a))))
          (JStr ''s1'')) = Some (JStr ''/a'')
   \<and> field (event_of (ex_request ex_event_b)) ''page_location'' = JStr ''/b''
   \<and> map_option s_first_page
       (sessions (db (snd (post_events (ex_env 5000)
                             (snd (post_events (ex_env 1000) ex_state (ex_request ex_event_a)))
                             (ex_request ex_event_b)))) (JStr ''s1'')) = Some (JStr ''/a'')
   \<and> map_option s_last_page
       (sessions (db (snd (post_events (ex_env 5000)
                             (snd (post_events (ex_env 1000) ex_state (ex_request ex_event_a)))
                             (ex_request ex_event_b)))) (JStr ''s1'')) = Some (JStr ''/a'')"
proof -
  let ?st1 = "snd (post_events (ex_env 1000) ex_state (ex_request ex_event_a))"
  have pa: "event_of (ex_request ex_event_a) = ex_event_a"
    and pb: "event_of (ex_request ex_event_b) = ex_event_b"
    by (simp_all add: event_of_def ex_request_def ex_event_a_def ex_event_b_def js_or_def)
  have fa: "fst (shouldStore (dedupe ex_state) (now_dedupe (ex_env 1000))
              (event_of (ex_request ex_event_a)))"
    by (simp add: ex_event_a_fresh)
  have s1: "sessions (db ?st1) (JStr ''s1'')
      = Some \<lparr>s_client_id = JStr ''c1'', s_started_at = Clock 1002, s_first_page = JStr ''/a'',
              s_last_page = JStr ''/a''\<rparr>"
  proof -
    have "sessions (db ?st1) = sessions (after_upserts (ex_env 1000) ex_event_a (db ex_state))"
      using post_events_sessions [OF ex_event_a_valid fa fault_free_simps(1)] by (simp add: pa)
    then show ?thesis
      by (simp add: after_upserts_def upsert_session_def upsert_user_def upsert_def
          upserted_def event_session_row_def ex_event_a_def ex_state_def ex_store_def
          ex_env_def or_null_def js_or_def sql_param_def)
  qed
  have c1: "dedupe ?st1 = [''page_view:e1'' \<mapsto> 1000]"
  proof -
    have "dedupe ?st1 = snd (shouldStore (dedupe ex_state) (now_dedupe (ex_env 1000)) ex_event_a)"
      using dedupe_after_valid [OF ex_event_a_valid] by (simp add: pa)
    then show ?thesis
      by (simp add: shouldStore_eq evict_def dedupe_key_def ex_event_a_def ex_state_def)
  qed
  have fb: "fst (shouldStore (dedupe ?st1) (now_dedupe (ex_env 5000))
              (event_of (ex_request ex_event_b)))"
    unfolding pb c1 by (simp add: shouldStore_eq evict_def dedupe_key_def ex_event_b_def)
  have n1: "event_seq (db ?st1) = 1"
    using post_events_stored(4) [OF ex_event_a_valid fa] by (simp add: ex_state_def ex_store_def)
  have r2: "fst (post_events (ex_env 5000) ?st1 (ex_request ex_event_b)) = stored_response 2 []"
    using post_events_stored(1) [OF ex_event_b_valid fb] by (simp add: n1 numeral_2_eq_2)
  have s2: "sessions (db (snd (post_events (ex_env 5000) ?st1 (ex_request ex_event_b))))
        (JStr ''s1'')
      = Some \<lparr>s_client_id = JStr ''c1'', s_started_at = Clock 1002, s_first_page = JStr ''/a'',
              s_last_page = JStr ''/a''\<rparr>"
  proof -
    have "sessions (db (snd (post_events (ex_env 5000) ?st1 (ex_request ex_event_b))))
        = sessions (after_upserts (ex_env 5000) ex_event_b (db ?st1))"
      using post_events_sessions [OF ex_event_b_valid fb fault_free_simps(1)] by (simp add: pb)
    moreover have "field ex_event_b ''session_id'' = JStr ''s1''"
      "field ex_event_b ''client_id'' = JStr ''c1''"
      by (simp_all add: ex_event_b_def)
    ultimately show ?thesis
      using s1
      by (simp add: after_upserts_def upsert_session_def upsert_user_def upsert_def
          upserted_def event_session_merge_def event_session_row_def sql_param_def)
  qed
  have pl: "field (event_of (ex_request ex_event_b)) ''page_location'' = JStr ''/b''"
    unfolding pb by (simp add: ex_event_b_def)
  show ?thesis
    using r2 s1 s2 pl by simp
qed

subsection \<open>Campaign\<close>

lemma campaign_structured:
  "truthy (field ev ''campaign'') \<Longrightarrow> campaign_of ev = field ev ''campaign''"
  by (simp add: campaign_of_def js_or_def)

lemma campaign_legacy:
  "\<not> truthy (field ev ''campaign'') \<Longrightarrow> campaign_of ev = pick ev legacy_keys"
  by (simp add: campaign_of_def js_or_def pick_def)

lemma campaign_legacy_example:
  "campaign_of ex_event_utm = JObj [(''utm_source'', JStr ''ads''), (''utm_medium'', JStr ''cpc'')]"
  by (simp add: campaign_of_def js_or_def pick_def legacy_keys_def ex_event_utm_def)

text \<open>
  C6.  A structured campaign is stored as it is (\<open>campaign_structured\<close>) and, without
  one, the campaign is the object picked from the flat fields (\<open>campaign_legacy\<close>,
  \<open>campaign_legacy_example\<close>).  But \<^verbatim>\<open>pick\<close> always returns an object and an
  empty object is truthy, so the two \<^verbatim>\<open>|| null\<close> never fire: the campaign column of
  an event row is never NULL, and an event with neither a structured campaign nor any
  flat field is stored with the empty object.
\<close>

theorem C6_campaign_is_never_null:
  "e_campaign (event_row_of ev ua i) \<noteq> JNull
   \<and> field ex_event_c ''campaign'' = JUndefined
   \<and> pick ex_event_c legacy_keys = JObj []
   \<and> fst (post_events (ex_env 1000) ex_state (ex_request ex_event_c))
       = stored_response 1 [''recommend:session_id'']
   \<and> map e_campaign (events (db (snd (post_events (ex_env 1000) ex_state (ex_request ex_event_c)))))
       = [JObj []]"
proof -
  have a: "e_campaign (event_row_of ev ua i) \<noteq> JNull"
    by (cases "field ev ''campaign''")
      (simp_all add: event_row_of_def campaign_of_def or_null_def js_or_def pick_def)
  have p: "event_of (ex_request ex_event_c) = ex_event_c"
    by (simp add: event_of_def ex_request_def ex_event_c_def js_or_def)
  have v: "validateEvent (event_of (ex_request ex_event_c)) = Inr ([], [''recommend:session_id''])"
    unfolding p by (simp add: ex_event_c_def validateEvent_def push_if_def Let_def)
  have f: "fst (shouldStore (dedupe ex_state) (now_dedupe (ex_env 1000))
             (event_of (ex_request ex_event_c)))"
    by (simp add: shouldStore_def evict_def ex_state_def Let_def)
  have b: "field ex_event_c ''campaign'' = JUndefined" "pick ex_event_c legacy_keys = JObj []"
    by (simp_all add: ex_event_c_def pick_def legacy_keys_def)
  have c: "e_campaign (event_row_of ex_event_c ua' i') = JObj []" for ua' i'
    by (simp add: event_row_of_def campaign_of_def or_null_def js_or_def b)
  show ?thesis
    using a b post_events_stored(1,2) [OF v f]
    by (simp add: p c ex_state_def ex_store_def)
qed

subsection \<open>The bulk endpoint\<close>

lemma bulk_loop_null:
  "bulk_loop ienv i (JNull # evs) cache d ok = (cache, d, None)"
  by (simp add: validateEvent_def)

lemma bulk_loop_skip_duplicate:
  assumes "validateEvent ev = Inr ([], warns)"
    and "\<not> fst (shouldStore cache (now_dedupe (ienv i)) ev)"
  shows "bulk_loop ienv i (ev # evs) cache d ok
       = bulk_loop ienv (Suc i) evs (evict (now_dedupe (ienv i)) cache) d ok"
  using assms by (auto simp: shouldStore_eq)

lemma evict_absent: "d k = None \<Longrightarrow> evict now d k = None"
  by (simp add: evict_def)

lemma evict_other: "k \<noteq> k' \<Longrightarrow> evict now (d(k' \<mapsto> t)) k = evict now d k"
  by (simp add: evict_def)

lemma bulk_item_ok:
  assumes "fault_free e"
  shows "\<exists>d1. bulk_item e ev d = (d1, True)
       \<and> events d1 = events d @ [event_row_of ev JUndefined (Suc (event_seq d))]
       \<and> metadata d1 = metadata d \<and> event_seq d1 = Suc (event_seq d)"
  using assms
  by (simp add: bulk_item_def fault_free_def insert_event_def Let_def)

lemma bulk_loop_accept:
  assumes v: "validateEvent ev = Inr ([], warns)"
    and k: "cache (dedupe_key ev) = None"
    and nf: "fault_free (ienv i)"
  shows "\<exists>d1. bulk_loop ienv i (ev # evs) cache d ok
         = bulk_loop ienv (Suc i) evs
             ((evict (now_dedupe (ienv i)) cache)(dedupe_key ev \<mapsto> now_dedupe (ienv i)))
             d1 (Suc ok)
       \<and> events d1 = events d @ [event_row_of ev JUndefined (Suc (event_seq d))]
       \<and> metadata d1 = metadata d \<and> event_seq d1 = Suc (event_seq d)"
proof -
  obtain d1 where d1: "bulk_item (ienv i) ev d = (d1, True)"
    "events d1 = events d @ [event_row_of ev JUndefined (Suc (event_seq d))]"
    "metadata d1 = metadata d" "event_seq d1 = Suc (event_seq d)"
    using bulk_item_ok [OF nf] by blast
  have "bulk_loop ienv i (ev # evs) cache d ok
         = bulk_loop ienv (Suc i) evs
             ((evict (now_dedupe (ienv i)) cache)(dedupe_key ev \<mapsto> now_dedupe (ienv i)))
             d1 (Suc ok)"
    using v d1(1) evict_absent [of cache "dedupe_key ev", OF k] by (simp add: shouldStore_eq)
  with d1(2-4) show ?thesis by blast
qed

text \<open>Whenever the bulk handler answers with status 500, the four tables are those of
  before the request: every statement of the batch ran on the transaction's client.\<close>

lemma bulk_failure_rolls_back:
  assumes "res_status (fst (post_events_bulk e ienv st req)) = 500"
  shows "events (db (snd (post_events_bulk e ienv st req))) = events (db st)"
    and "metadata (db (snd (post_events_bulk e ienv st req))) = metadata (db st)"
    and "users (db (snd (post_events_bulk e ienv st req))) = users (db st)"
    and "sessions (db (snd (post_events_bulk e ienv st req))) = sessions (db st)"
  using assms
  by (auto simp: post_events_bulk_def Let_def rollback_def ingested_response_def
      split: if_splits prod.splits option.splits bool.splits)

text \<open>The batch of the spec's scenario, for items that are not \<^verbatim>\<open>null\<close>: a valid
  event, an item with a hard error, a valid event with another key, neither key in the
  cache, no fault.\<close>

lemma bulk_valid_invalid_valid:
  assumes body: "req_body req = JArr [a, b, c]"
    and va: "validateEvent a = Inr ([], wa)"
    and vb: "validateEvent b = Inr (eb, wb)" "eb \<noteq> []"
    and vc: "validateEvent c = Inr ([], wc)"
    and ka: "dedupe st (dedupe_key a) = None"
    and kc: "dedupe st (dedupe_key c) = None"
    and kac: "dedupe_key c \<noteq> dedupe_key a"
    and nf: "fault_free e" "fault_free (ienv 0)" "fault_free (ienv 2)"
  shows "fst (post_events_bulk e ienv st req) = ingested_response 2"
    and "events (db (snd (post_events_bulk e ienv st req)))
       = events (db st)
         @ [event_row_of a JUndefined (Suc (event_seq (db st))),
            event_row_of c JUndefined (Suc (Suc (event_seq (db st))))]"
    and "metadata (db (snd (post_events_bulk e ienv st req)))
       = metadata (db st) @ [meta_row_of req 0]"
proof -
  let ?c1 = "(evict (now_dedupe (ienv 0)) (dedupe st))(dedupe_key a \<mapsto> now_dedupe (ienv 0))"
  obtain d1 where s1: "bulk_loop ienv 0 [a, b, c] (dedupe st) (db st) 0
        = bulk_loop ienv (Suc 0) [b, c] ?c1 d1 (Suc 0)"
    and d1: "events d1 = events (db st) @ [event_row_of a JUndefined (Suc (event_seq (db st)))]"
      "metadata d1 = metadata (db st)" "event_seq d1 = Suc (event_seq (db st))"
    using bulk_loop_accept [where ev = a and cache = "dedupe st" and ienv = ienv and i = 0,
        OF va ka nf(2)] by blast
  have s2: "bulk_loop ienv (Suc 0) [b, c] ?c1 d1 (Suc 0)
        = bulk_loop ienv (Suc (Suc 0)) [c] ?c1 d1 (Suc 0)"
    using bulk_loop_skip_invalid [OF vb] .
  have kc1: "?c1 (dedupe_key c) = None"
    using kac evict_absent [of "dedupe st" "dedupe_key c", OF kc] by simp
  have nf2: "fault_free (ienv (Suc (Suc 0)))"
    using nf(3) by (simp add: numeral_2_eq_2)
  obtain d2 cache2 where s3: "bulk_loop ienv (Suc (Suc 0)) [c] ?c1 d1 (Suc 0)
        = bulk_loop ienv (Suc (Suc (Suc 0))) [] cache2 d2 (Suc (Suc 0))"
    and d2: "events d2 = events d1 @ [event_row_of c JUndefined (Suc (event_seq d1))]"
      "metadata d2 = metadata d1"
    using bulk_loop_accept [where ev = c and cache = ?c1 and ienv = ienv
          and i = "Suc (Suc 0)", OF vc kc1 nf2] by blast
  have loop: "bulk_loop ienv 0 [a, b, c] (dedupe st) (db st) 0 = (cache2, d2, Some 2)"
    using s1 s2 s3 by (simp add: numeral_2_eq_2)
  have fin: "bulk_finish e req d2 2 = (insert_metadata d2 (meta_row_of req 0), True)"
    using nf(1) by (simp add: bulk_finish_def fault_free_def)
  have out: "post_events_bulk e ienv st req
      = (ingested_response 2, \<lparr>dedupe = cache2, db = insert_metadata d2 (meta_row_of req 0)\<rparr>)"
    using nf(1)
    by (simp add: post_events_bulk_def body loop fin fault_free_def del: bulk_loop.simps)
  show "fst (post_events_bulk e ienv st req) = ingested_response 2"
    by (simp add: out)
  show "events (db (snd (post_events_bulk e ienv st req)))
       = events (db st)
         @ [event_row_of a JUndefined (Suc (event_seq (db st))),
            event_row_of c JUndefined (Suc (Suc (event_seq (db st))))]"
    by (simp add: out insert_metadata_def d2 d1)
  show "metadata (db (snd (post_events_bulk e ienv st req)))
       = metadata (db st) @ [meta_row_of req 0]"
    by (simp add: out insert_metadata_def d2 d1)
qed

text \<open>
  C2.  For items that are not \<^verbatim>\<open>null\<close> the bulk loop behaves as claimed: an item
  with a hard error and a duplicate are skipped (\<open>bulk_loop_skip_invalid\<close>,
  \<open>bulk_loop_skip_duplicate\<close>), a batch of a valid, an invalid and another valid item
  ingests two (\<open>bulk_valid_invalid_valid\<close>), and a failing batch leaves no row behind
  (\<open>bulk_failure_rolls_back\<close>).  A \<^verbatim>\<open>null\<close> item is not skipped:
  \<^verbatim>\<open>validateEvent\<close> throws on it inside the transaction's \<^verbatim>\<open>try\<close>, the loop is
  aborted, the answer is \<open>db_error\<close> and the event inserted before it is rolled back,
  while its fingerprint stays in the cache.
\<close>

theorem C2_null_item_aborts_batch:
  "validateEvent JNull = Inl TypeError
   \<and> validateEvent ex_event_a = Inr ([], [])
   \<and> validateEvent ex_event_c = Inr ([], [''recommend:session_id''])
   \<and> fst (post_events_bulk (ex_env 1000) ex_item_env ex_state
            (ex_request (JArr [ex_event_a, JNull, ex_event_c]))) = db_error
   \<and> events (db (snd (post_events_bulk (ex_env 1000) ex_item_env ex_state
                        (ex_request (JArr [ex_event_a, JNull, ex_event_c]))))) = []
   \<and> dedupe (snd (post_events_bulk (ex_env 1000) ex_item_env ex_state
                    (ex_request (JArr [ex_event_a, JNull, ex_event_c]))))
        (dedupe_key ex_event_a) = Some 1000"
proof -
  have n: "validateEvent JNull = Inl TypeError"
    by (simp add: validateEvent_def)
  have va: "validateEvent ex_event_a = Inr ([], [])"
    by (simp add: ex_event_a_def validateEvent_def push_if_def Let_def)
  have vc: "validateEvent ex_event_c = Inr ([], [''recommend:session_id''])"
    by (simp add: ex_event_c_def validateEvent_def push_if_def Let_def)
  have ka: "dedupe ex_state (dedupe_key ex_event_a) = None"
    by (simp add: ex_state_def)
  have nf: "fault_free (ex_item_env 0)"
    by (simp add: ex_item_env_def)
  have t: "now_dedupe (ex_item_env 0) = 1000"
    by (simp add: ex_item_env_def)
  obtain d1 where s1: "bulk_loop ex_item_env 0 [ex_event_a, JNull, ex_event_c]
          (dedupe ex_state) (db ex_state) 0
        = bulk_loop ex_item_env (Suc 0) [JNull, ex_event_c]
            ((evict 1000 (dedupe ex_state))(dedupe_key ex_event_a \<mapsto> 1000)) d1 (Suc 0)"
    using bulk_loop_accept [where ev = ex_event_a and cache = "dedupe ex_state"
          and ienv = ex_item_env and i = 0 and evs = "[JNull, ex_event_c]"
          and d = "db ex_state" and ok = 0, OF va ka nf]
    unfolding t by blast
  have loop: "bulk_loop ex_item_env 0 [ex_event_a, JNull, ex_event_c]
          (dedupe ex_state) (db ex_state) 0
        = ((evict 1000 (dedupe ex_state))(dedupe_key ex_event_a \<mapsto> 1000), d1, None)"
    unfolding s1 by (rule bulk_loop_null)
  have nfe: "\<not> faults (ex_env 1000) Connect" "\<not> faults (ex_env 1000) Begin"
    by (simp_all add: ex_env_def no_faults_def)
  have out: "post_events_bulk (ex_env 1000) ex_item_env ex_state
            (ex_request (JArr [ex_event_a, JNull, ex_event_c]))
      = (db_error,
         \<lparr>dedupe = (evict 1000 (dedupe ex_state))(dedupe_key ex_event_a \<mapsto> 1000),
          db = rollback (db ex_state) d1\<rparr>)"
    using nfe by (simp add: post_events_bulk_def ex_request_def loop del: bulk_loop.simps)
  show ?thesis
    using n va vc unfolding out by (simp add: rollback_def ex_state_def ex_store_def)
qed

subsection \<open>Cache entries between two submissions\<close>

text \<open>Requests handled between two submissions of one fingerprint do not disturb the
  entry: a single-event request whose clock reading is within 60000 ms of an entry
  leaves that entry as it is, and a valid request meeting a live entry of its own key
  is deduplicated whatever else the cache holds.\<close>

lemma cache_entry_survives:
  assumes k: "dedupe st k = Some ts" and w: "now_dedupe e - ts \<le> 60000"
  shows "dedupe (snd (post_events e st req)) k = Some ts"
proof -
  obtain errs warns where v: "validateEvent (event_of req) = Inr (errs, warns)"
    using validateEvent_event_of by blast
  have live: "evict (now_dedupe e) (dedupe st) k = Some ts"
    using k w by (simp add: evict_def)
  show ?thesis
  proof (cases "errs = []")
    case True
    with v have v': "validateEvent (event_of req) = Inr ([], warns)" by simp
    show ?thesis
      using live by (auto simp: dedupe_after_valid [OF v'] shouldStore_eq)
  next
    case False
    from post_events_invalid [OF v False] k show ?thesis by simp
  qed
qed

lemma registered_key_dedupes:
  assumes v: "validateEvent (event_of req) = Inr ([], warns)"
    and k: "dedupe st (dedupe_key (event_of req)) = Some ts"
    and w: "now_dedupe e - ts \<le> 60000"
  shows "fst (post_events e st req) = deduped_response"
    and "db (snd (post_events e st req)) = db st"
proof -
  have "\<not> fst (shouldStore (dedupe st) (now_dedupe e) (event_of req))"
    using k w by (simp add: shouldStore_eq evict_def)
  from post_events_deduped [OF v this]
  show "fst (post_events e st req) = deduped_response"
    and "db (snd (post_events e st req)) = db st"
    by simp_all
qed

end
